theory Spec2Isabelle
  imports Main
begin

section \<open>Strings\<close>

text \<open>
  A JavaScript string is a sequence of code units. The model uses \<^typ>\<open>string\<close>; a
  \<^typ>\<open>char\<close> stands for a code unit in the range 0..255. \<open>isWhiteSpace\<close> lists the
  code units of that range which \<^verbatim>\<open>String.prototype.trim\<close> and the regular-expression
  class \<^verbatim>\<open>\s\<close> treat as white space or line terminators: TAB, LF, VT, FF, CR, SPACE
  and NBSP.
\<close>

definition isWhiteSpace :: "char \<Rightarrow> bool" where
  "isWhiteSpace c = ((of_char c :: nat) \<in> {9, 10, 11, 12, 13, 32, 160})"

definition trim :: "string \<Rightarrow> string" where
  "trim s = rev (dropWhile isWhiteSpace (rev (dropWhile isWhiteSpace s)))"

fun startsWith :: "string \<Rightarrow> string \<Rightarrow> bool" where
  "startsWith s [] = True"
| "startsWith [] (p # ps) = False"
| "startsWith (c # cs) (p # ps) = (c = p \<and> startsWith cs ps)"

fun includesStr :: "string \<Rightarrow> string \<Rightarrow> bool" where
  "includesStr [] p = (p = [])"
| "includesStr (c # cs) p = (startsWith (c # cs) p \<or> includesStr cs p)"

text \<open>
  \<^verbatim>\<open>toLowerCase\<close> on the code units 0..255: the ASCII capitals and the Latin-1 capitals
  (0xC0..0xDE without the multiplication sign 0xD7) move up by 32.
\<close>

definition toLowerChar :: "char \<Rightarrow> char" where
  "toLowerChar c =
     (let n = (of_char c :: nat)
      in if (65 \<le> n \<and> n \<le> 90) \<or> (192 \<le> n \<and> n \<le> 222 \<and> n \<noteq> 215)
         then char_of (n + 32) else c)"

definition toLowerCase :: "string \<Rightarrow> string" where
  "toLowerCase s = map toLowerChar s"

section \<open>The subtitle utilities\<close>

subsection \<open>sanitizeContent\<close>

text \<open>
  \<^verbatim>\<open>content.replace(/<\/?[^>]+(>|$)/g, '')\<close>: scanning from the left, a match starts at
  a \<open><\<close> that is followed by at least one code unit other than \<open>>\<close>. The optional slash
  is itself such a code unit, so with backtracking the match always covers the \<open><\<close>, the
  longest run of code units other than \<open>>\<close>, and the \<open>>\<close> closing it when there is one
  (otherwise the run reaches the end of the string, which \<open>$\<close> accepts). A \<open><\<close> directly
  followed by \<open>>\<close>, or standing last, matches nothing and is kept by this pass.
\<close>

function stripTags :: "string \<Rightarrow> string" where
  "stripTags [] = []"
| "stripTags (c # cs) =
     (if c = CHR ''<'' \<and> takeWhile (\<lambda>x. x \<noteq> CHR ''>'') cs \<noteq> []
      then stripTags (drop 1 (dropWhile (\<lambda>x. x \<noteq> CHR ''>'') cs))
      else c # stripTags cs)"
  by pat_completeness auto
termination
proof (relation "measure length")
  fix c :: char and cs :: string
  have "length (dropWhile (\<lambda>x. x \<noteq> CHR ''>'') cs) \<le> length cs"
    by (rule length_dropWhile_le)
  then show "(drop 1 (dropWhile (\<lambda>x. x \<noteq> CHR ''>'') cs), c # cs) \<in> measure length"
    by simp
qed simp_all

definition sanitizeContent :: "string \<Rightarrow> string" where
  "sanitizeContent content =
     trim (filter (\<lambda>x. x \<noteq> CHR ''>'') (filter (\<lambda>x. x \<noteq> CHR ''<'') (stripTags content)))"

subsection \<open>formatTime\<close>

text \<open>
  The argument is a JavaScript number, a double. The model has the whole numbers and the
  three special values. \<open>Whole n\<close> stands for the double of value \<open>n\<close> and is meant for
  \<open>\<bar>n\<bar> \<le> 2^53 - 1\<close>: in that range every whole number is a double, the quotients and
  remainders below are exact, so that \<^verbatim>\<open>Math.floor(a / b)\<close> is \<open>div\<close> and \<^verbatim>\<open>%\<close> is the
  remainder with the sign of the dividend, and \<^verbatim>\<open>toString\<close> prints plain decimal digits
  (it changes to exponent form from \<open>10^21\<close>). Fractions and larger finite numbers are not
  modelled.
\<close>

datatype number = Whole int | Infinity | MinusInfinity | NaN

definition MAX_SAFE_INTEGER :: int where
  "MAX_SAFE_INTEGER = 2 ^ 53 - 1"

definition inModel :: "number \<Rightarrow> bool" where
  "inModel x = (case x of Whole n \<Rightarrow> \<bar>n\<bar> \<le> MAX_SAFE_INTEGER | other \<Rightarrow> True)"

text \<open>The comparison \<^verbatim>\<open>x >= 0\<close>.\<close>

definition nonNegative :: "number \<Rightarrow> bool" where
  "nonNegative x = (case x of Whole n \<Rightarrow> 0 \<le> n | Infinity \<Rightarrow> True | other \<Rightarrow> False)"

definition jsRem :: "int \<Rightarrow> int \<Rightarrow> int" where
  "jsRem a b = sgn a * (\<bar>a\<bar> mod \<bar>b\<bar>)"

definition digitChar :: "nat \<Rightarrow> char" where
  "digitChar d = char_of (48 + d)"

fun digitsOf :: "nat \<Rightarrow> string" where
  "digitsOf n = (if n < 10 then [digitChar n] else digitsOf (n div 10) @ [digitChar (n mod 10)])"

declare digitsOf.simps [simp del]

text \<open>The decimal digits of a whole number, with its sign.\<close>

definition toString :: "int \<Rightarrow> string" where
  "toString n = (if n < 0 then CHR ''-'' # digitsOf (nat (- n)) else digitsOf (nat n))"

definition padStart :: "nat \<Rightarrow> char \<Rightarrow> string \<Rightarrow> string" where
  "padStart targetLength c s = replicate (targetLength - length s) c @ s"

text \<open>
  \<^verbatim>\<open>Math.floor(a / b)\<close> and \<^verbatim>\<open>a % b\<close> for a positive whole \<open>b\<close>: an infinite dividend
  keeps the quotient infinite and makes the remainder \<^verbatim>\<open>NaN\<close>.
\<close>

definition floorDiv :: "number \<Rightarrow> int \<Rightarrow> number" where
  "floorDiv a b = (case a of Whole n \<Rightarrow> Whole (n div b) | other \<Rightarrow> other)"

definition remainder :: "number \<Rightarrow> int \<Rightarrow> number" where
  "remainder a b = (case a of Whole n \<Rightarrow> Whole (jsRem n b) | other \<Rightarrow> NaN)"

definition Number_toString :: "number \<Rightarrow> string" where
  "Number_toString x =
     (case x of
        Whole n \<Rightarrow> toString n
      | Infinity \<Rightarrow> ''Infinity''
      | MinusInfinity \<Rightarrow> ''-Infinity''
      | NaN \<Rightarrow> ''NaN'')"

definition pad :: "number \<Rightarrow> string" where
  "pad n = padStart 2 CHR ''0'' (Number_toString n)"

text \<open>
  The result is \<open>None\<close> for an argument the model does not cover (the source returns a
  string there as well, which the model does not describe).
\<close>

definition formatTime :: "number \<Rightarrow> string option" where
  "formatTime ms =
     (if \<not> inModel ms then None
      else
        (let hours = floorDiv ms 3600000;
             minutes = floorDiv (remainder ms 3600000) 60000;
             seconds = floorDiv (remainder ms 60000) 1000;
             milliseconds = floorDiv (remainder ms 1000) 1
         in Some (pad hours @ '':'' @ pad minutes @ '':'' @ pad seconds @ '','' @
                  padStart 3 CHR ''0'' (Number_toString milliseconds))))"

text \<open>Reading a field of the time code back: is it made of decimal digits, and which number.\<close>

definition isDigit :: "char \<Rightarrow> bool" where
  "isDigit c = (48 \<le> (of_char c :: nat) \<and> (of_char c :: nat) \<le> 57)"

definition digitsValue :: "string \<Rightarrow> int" where
  "digitsValue s = foldl (\<lambda>acc c. 10 * acc + (int (of_char c) - 48)) 0 s"

subsection \<open>parseSubtitleFile\<close>

text \<open>
  An entry as the grammar library returns it. Every property may be missing
  (\<open>None\<close> is \<^verbatim>\<open>undefined\<close>); the numbers are whole milliseconds.
\<close>

record entry =
  raw_type :: "string option"
  raw_index :: "int option"
  raw_start :: "int option"
  raw_end :: "int option"
  raw_duration :: "int option"
  raw_content :: "string option"
  raw_text :: "string option"

datatype caption_type = caption | meta

record SubtitleCaption =
  cap_type :: caption_type
  cap_index :: int
  cap_start :: int
  cap_end :: int
  cap_duration :: int
  cap_content :: string
  cap_text :: string

record File =
  file_name :: string
  file_size :: nat
  file_text :: string

text \<open>
  What \<^verbatim>\<open>subsrt.parse(content)\<close> can do: raise an error with a message, return something
  that is not an array, or return an array of entries. The library is a parameter of the
  model.
\<close>

datatype grammar_result = Throws string | NotArray | Entries "entry list"

text \<open>The operator \<^verbatim>\<open>||\<close>: the left operand when it is truthy, otherwise the right one.\<close>

definition truthyStr :: "string option \<Rightarrow> bool" where
  "truthyStr v = (case v of None \<Rightarrow> False | Some s \<Rightarrow> s \<noteq> [])"

definition orStr :: "string option \<Rightarrow> string \<Rightarrow> string" where
  "orStr v d = (case v of None \<Rightarrow> d | Some s \<Rightarrow> if s = [] then d else s)"

definition orNum :: "int option \<Rightarrow> int \<Rightarrow> int" where
  "orNum v d = (case v of None \<Rightarrow> d | Some n \<Rightarrow> if n = 0 then d else n)"

definition isCaptionEntry :: "entry \<Rightarrow> bool" where
  "isCaptionEntry c = (raw_type c = Some ''caption'' \<or> \<not> truthyStr (raw_type c))"

definition cleanCaption :: "nat \<times> entry \<Rightarrow> SubtitleCaption" where
  "cleanCaption p =
     (case p of (idx, c) \<Rightarrow>
        \<lparr> cap_type = caption,
          cap_index = int idx + 1,
          cap_start = orNum (raw_start c) 0,
          cap_end = orNum (raw_end c) 0,
          cap_duration = orNum (raw_duration c) 0,
          cap_content = sanitizeContent (orStr (raw_content c) (orStr (raw_text c) [])),
          cap_text = sanitizeContent (orStr (raw_text c) []) \<rparr>)"

definition parseFailure :: "string \<Rightarrow> string" where
  "parseFailure message = ''Failed to parse subtitle file: '' @ message"

text \<open>
  The result is \<open>Inr\<close> the captions, or \<open>Inl\<close> the message of the error the function
  throws. The error raised inside the \<^verbatim>\<open>try\<close> block for an empty result is caught by
  the function's own \<^verbatim>\<open>catch\<close> and wrapped like any other.
\<close>

definition parseSubtitleFile :: "(string \<Rightarrow> grammar_result) \<Rightarrow> File \<Rightarrow> string + SubtitleCaption list" where
  "parseSubtitleFile subsrt_parse f =
     (case subsrt_parse (file_text f) of
        Throws message \<Rightarrow> Inl (parseFailure message)
      | NotArray \<Rightarrow> Inl (parseFailure ''No valid subtitles found in file'')
      | Entries parsedContent \<Rightarrow>
          if parsedContent = [] then Inl (parseFailure ''No valid subtitles found in file'')
          else Inr (map cleanCaption (enumerate 0 (filter isCaptionEntry parsedContent))))"

text \<open>Sample data: a header-only file, whose grammar result is a single \<open>meta\<close> entry.\<close>

definition metaEntry :: entry where
  "metaEntry = \<lparr> raw_type = Some ''meta'', raw_index = None, raw_start = None, raw_end = None,
     raw_duration = None, raw_content = None, raw_text = None \<rparr>"

definition sampleEntries :: "entry list" where
  "sampleEntries =
     [metaEntry,
      \<lparr> raw_type = Some ''caption'', raw_index = Some 7, raw_start = Some 1000,
        raw_end = Some 2500, raw_duration = Some 1500, raw_content = Some ''<i>Hello</i> '',
        raw_text = Some ''Hello'' \<rparr>,
      \<lparr> raw_type = None, raw_index = Some 3, raw_start = None, raw_end = None,
        raw_duration = None, raw_content = None, raw_text = Some '' a < b '' \<rparr>]"

definition fallbackEntry :: entry where
  "fallbackEntry =
     \<lparr> raw_type = Some ''caption'', raw_index = Some 1, raw_start = Some 1000,
       raw_end = Some 2000, raw_duration = Some 1000, raw_content = Some [],
       raw_text = Some ''x'' \<rparr>"

definition fixedGrammar :: "entry list \<Rightarrow> string \<Rightarrow> grammar_result" where
  "fixedGrammar entries content = Entries entries"

definition sampleFile :: File where
  "sampleFile = \<lparr> file_name = ''a.vtt'', file_size = 6, file_text = ''WEBVTT'' \<rparr>"

section \<open>The upload endpoint: admission control\<close>

text \<open>
  The module keeps one table \<^verbatim>\<open>requestCounts\<close> for the life of the process; the handler
  reads the clock once per request. Both are passed explicitly: the handler takes the time
  and the table and returns the table it leaves behind.
\<close>

definition RATE_LIMIT_WINDOW :: int where
  "RATE_LIMIT_WINDOW = 60 * 1000"

definition MAX_REQUESTS_PER_WINDOW :: int where
  "MAX_REQUESTS_PER_WINDOW = 10"

record client_requests =
  count :: int
  timestamp :: int

type_synonym request_counts = "string \<rightharpoonup> client_requests"

text \<open>
  The part of a request the handler looks at before it reads the form: two headers. The
  field \<open>origin\<close> is the peer that really sent the request; no code reads it.
\<close>

record upload_request =
  content_type :: "string option"
  x_forwarded_for :: "string option"
  origin :: string

datatype early_response = Respond nat string | Proceed

definition clientIP :: "upload_request \<Rightarrow> string" where
  "clientIP request = orStr (x_forwarded_for request) ''unknown''"

text \<open>The rate limiting check; \<open>True\<close> when the request may go on.\<close>

definition rateLimit :: "int \<Rightarrow> string \<Rightarrow> request_counts \<Rightarrow> bool \<times> request_counts" where
  "rateLimit now ip requestCounts =
     (case requestCounts ip of
        Some clientRequests \<Rightarrow>
          if now - timestamp clientRequests < RATE_LIMIT_WINDOW then
            if count clientRequests \<ge> MAX_REQUESTS_PER_WINDOW then (False, requestCounts)
            else (True, requestCounts(ip \<mapsto> clientRequests\<lparr>count := count clientRequests + 1\<rparr>))
          else (True, requestCounts(ip \<mapsto> \<lparr>count = 1, timestamp = now\<rparr>))
      | None \<Rightarrow> (True, requestCounts(ip \<mapsto> \<lparr>count = 1, timestamp = now\<rparr>)))"

definition isMultipart :: "upload_request \<Rightarrow> bool" where
  "isMultipart request =
     (case content_type request of
        None \<Rightarrow> False
      | Some contentType \<Rightarrow> includesStr contentType ''multipart/form-data'')"

definition admission :: "upload_request \<Rightarrow> int \<Rightarrow> request_counts \<Rightarrow> early_response \<times> request_counts" where
  "admission request now requestCounts =
     (if \<not> isMultipart request
      then (Respond 415 ''Invalid content type. Must be multipart/form-data'', requestCounts)
      else (case rateLimit now (clientIP request) requestCounts of
              (True, requestCounts') \<Rightarrow> (Proceed, requestCounts')
            | (False, requestCounts') \<Rightarrow>
                (Respond 429 ''Too many requests. Please try again later.'', requestCounts')))"

text \<open>The periodic clean-up removes the entries whose window is over.\<close>

definition cleanUp :: "int \<Rightarrow> request_counts \<Rightarrow> request_counts" where
  "cleanUp now requestCounts =
     (\<lambda>ip. case requestCounts ip of
             None \<Rightarrow> None
           | Some d \<Rightarrow> if now - timestamp d \<ge> RATE_LIMIT_WINDOW then None else Some d)"

text \<open>A run of the limiter for one client at the given times, and a run of the handler.\<close>

fun admitAll :: "string \<Rightarrow> int list \<Rightarrow> request_counts \<Rightarrow> bool list \<times> request_counts" where
  "admitAll ip [] requestCounts = ([], requestCounts)"
| "admitAll ip (now # later) requestCounts =
     (case rateLimit now ip requestCounts of
        (ok, requestCounts') \<Rightarrow>
          (case admitAll ip later requestCounts' of
             (oks, requestCounts'') \<Rightarrow> (ok # oks, requestCounts'')))"

fun serveAll :: "(upload_request \<times> int) list \<Rightarrow> request_counts \<Rightarrow> early_response list \<times> request_counts" where
  "serveAll [] requestCounts = ([], requestCounts)"
| "serveAll ((request, now) # rest) requestCounts =
     (case admission request now requestCounts of
        (r, requestCounts') \<Rightarrow>
          (case serveAll rest requestCounts' of
             (rs, requestCounts'') \<Rightarrow> (r # rs, requestCounts'')))"

text \<open>The handler's answer to the limiter's decision.\<close>

definition verdict :: "bool \<Rightarrow> early_response" where
  "verdict ok = (if ok then Proceed else Respond 429 ''Too many requests. Please try again later.'')"

text \<open>Sample data: eleven requests without the forwarding header, each from its own peer.\<close>

definition anonymousRequest :: "nat \<Rightarrow> upload_request \<times> int" where
  "anonymousRequest i =
     (\<lparr> content_type = Some ''multipart/form-data; boundary=x'', x_forwarded_for = None,
        origin = ''peer-'' @ digitsOf i \<rparr>, 1000 * int i)"

definition anonymousRequests :: "(upload_request \<times> int) list" where
  "anonymousRequests = map anonymousRequest [0..<11]"

section \<open>The optimize endpoint\<close>

text \<open>
  Request bodies and provider answers are JSON values; numbers are modelled as integers.
  A \<^verbatim>\<open>throw\<close> raises either an \<^verbatim>\<open>Error\<close> object, which has a message, or some other
  value. The messages of the engine's own \<^verbatim>\<open>TypeError\<close>s are written as V8 words them.
\<close>

datatype json =
  JNull | JBool bool | JNum int | JStr string | JArr "json list" | JObj "(string \<times> json) list"

datatype thrown = Error string | NonError

text \<open>\<^verbatim>\<open>error instanceof Error ? error.message : fallback\<close>\<close>

definition messageOr :: "thrown \<Rightarrow> string \<Rightarrow> string" where
  "messageOr e fallback = (case e of Error message \<Rightarrow> message | NonError \<Rightarrow> fallback)"

text \<open>
  Reading a property of a value that is not \<^verbatim>\<open>null\<close>: \<open>None\<close> is \<^verbatim>\<open>undefined\<close>. Only the
  properties \<open>apiKey\<close>, \<open>subtitles\<close>, \<open>index\<close> and \<open>content\<close> are read this way, and no
  string, number, boolean or array has one of them.
\<close>

fun field :: "json \<Rightarrow> string \<Rightarrow> json option" where
  "field (JObj members) key = map_of members key"
| "field v key = None"

fun truthy :: "json option \<Rightarrow> bool" where
  "truthy None = False"
| "truthy (Some JNull) = False"
| "truthy (Some (JBool b)) = b"
| "truthy (Some (JNum n)) = (n \<noteq> 0)"
| "truthy (Some (JStr s)) = (s \<noteq> [])"
| "truthy (Some v) = True"

fun isString :: "json option \<Rightarrow> bool" where
  "isString (Some (JStr s)) = True"
| "isString v = False"

fun isNumber :: "json option \<Rightarrow> bool" where
  "isNumber (Some (JNum n)) = True"
| "isNumber v = False"

record response =
  status :: nat
  success :: bool
  optimized :: "json list option"
  error :: "string option"

definition failure :: "nat \<Rightarrow> string \<Rightarrow> response" where
  "failure code message = \<lparr> status = code, success = False, optimized = None, error = Some message \<rparr>"

text \<open>
  The outside world of the endpoint: the provider call \<^verbatim>\<open>ai.models.generateContent\<close>, which
  for an API key and a list of subtitles (the prompt is built from them) either throws or
  answers with a response whose \<^verbatim>\<open>text\<close> may be undefined, and \<^verbatim>\<open>JSON.parse\<close>.
\<close>

record environment =
  generateContent :: "string \<Rightarrow> json list \<Rightarrow> thrown + string option"
  JSON_parse :: "string \<Rightarrow> thrown + json"

definition MAX_SUBTITLES_PER_REQUEST :: nat where
  "MAX_SUBTITLES_PER_REQUEST = 50"

subsection \<open>optimizeSubtitles\<close>

text \<open>
  \<^verbatim>\<open>text.match(/```(?:json)?\s*(\[[\s\S]*?\])\s*```/)\<close>: the first position where a fence
  opens, optionally followed by \<open>json\<close>, then white space, then a bracketed text that ends at
  the first \<open>]\<close> after which only white space separates it from a closing fence. The result
  is the bracketed text.
\<close>

definition fence :: string where
  "fence = [CHR 0x60, CHR 0x60, CHR 0x60]"

fun lazyBody :: "string \<Rightarrow> string \<Rightarrow> string option" where
  "lazyBody acc [] = None"
| "lazyBody acc (c # cs) =
     (if c = CHR '']'' \<and> startsWith (dropWhile isWhiteSpace cs) fence then Some (acc @ [c])
      else lazyBody (acc @ [c]) cs)"

definition matchFenceAt :: "string \<Rightarrow> string option" where
  "matchFenceAt s =
     (if startsWith s fence then
        (let r1 = drop 3 s;
             r2 = (if startsWith r1 ''json'' then drop 4 r1 else r1);
             r3 = dropWhile isWhiteSpace r2
         in case r3 of [] \<Rightarrow> None
            | c # cs \<Rightarrow> if c = CHR ''['' then lazyBody ''['' cs else None)
      else None)"

fun matchFence :: "string \<Rightarrow> string option" where
  "matchFence [] = None"
| "matchFence (c # cs) =
     (case matchFenceAt (c # cs) of Some m \<Rightarrow> Some m | None \<Rightarrow> matchFence cs)"

text \<open>The text handed to \<^verbatim>\<open>JSON.parse\<close>, from \<^verbatim>\<open>response.text\<close>.\<close>

definition jsonTextOf :: "string option \<Rightarrow> string" where
  "jsonTextOf responseText =
     (let text = (case responseText of None \<Rightarrow> [] | Some t \<Rightarrow> trim t)
      in if startsWith text fence
         then (case matchFence text of Some m \<Rightarrow> m | None \<Rightarrow> text)
         else text)"

text \<open>The validation loop over the items; \<open>None\<close> when it runs to its end.\<close>

fun checkItems :: "json list \<Rightarrow> thrown option" where
  "checkItems [] = None"
| "checkItems (item # items) =
     (if item = JNull then Some (Error ''Cannot read properties of null (reading 'index')'')
      else if \<not> isNumber (field item ''index'') \<or> \<not> isString (field item ''content'')
      then Some (Error ''Invalid item format in response'')
      else checkItems items)"

definition optimizeAttempt :: "environment \<Rightarrow> string \<Rightarrow> json list \<Rightarrow> thrown + json list" where
  "optimizeAttempt env apiKey subtitles =
     (case generateContent env apiKey subtitles of
        Inl e \<Rightarrow> Inl e
      | Inr responseText \<Rightarrow>
          (case JSON_parse env (jsonTextOf responseText) of
             Inl e \<Rightarrow> Inl e
           | Inr (JArr items) \<Rightarrow>
               (case checkItems items of Some e \<Rightarrow> Inl e | None \<Rightarrow> Inr items)
           | Inr v \<Rightarrow> Inl (Error ''Response is not an array'')))"

definition optimizeSubtitles :: "environment \<Rightarrow> string \<Rightarrow> json list \<Rightarrow> thrown + json list" where
  "optimizeSubtitles env apiKey subtitles =
     (case optimizeAttempt env apiKey subtitles of
        Inl e \<Rightarrow> Inl (Error (''Failed to optimize subtitles: '' @ messageOr e ''Unknown error''))
      | Inr optimizedItems \<Rightarrow> Inr optimizedItems)"

subsection \<open>POST\<close>

text \<open>The callback of \<^verbatim>\<open>subtitles.filter\<close>: keep the items with non-blank content.\<close>

definition hasContent :: "json \<Rightarrow> thrown + bool" where
  "hasContent sub =
     (if sub = JNull then Inl (Error ''Cannot read properties of null (reading 'content')'')
      else (case field sub ''content'' of
              Some (JStr s) \<Rightarrow> Inr (s \<noteq> [] \<and> length (trim s) > 0)
            | c \<Rightarrow> if truthy c then Inl (Error ''sub.content.trim is not a function'')
                   else Inr False))"

fun filterValid :: "json list \<Rightarrow> thrown + json list" where
  "filterValid [] = Inr []"
| "filterValid (sub # subs) =
     (case hasContent sub of
        Inl e \<Rightarrow> Inl e
      | Inr keep \<Rightarrow>
          (case filterValid subs of
             Inl e \<Rightarrow> Inl e
           | Inr rest \<Rightarrow> Inr (if keep then sub # rest else rest)))"

text \<open>
  The request validation, up to the creation of the client: it throws, answers at once,
  or goes on with the API key and the valid subtitles.
\<close>

datatype checked = Reject response | Accept string "json list"

definition checkRequest :: "json \<Rightarrow> thrown + checked" where
  "checkRequest body =
     (if body = JNull
      then Inl (Error ''Cannot destructure property 'apiKey' of 'body' as it is null.'')
      else
        (let apiKey = field body ''apiKey''; subtitles = field body ''subtitles''
         in case apiKey of
              Some (JStr k) \<Rightarrow>
                if k = [] then Inr (Reject (failure 400 ''API key is required''))
                else
                  (case subtitles of
                     Some (JArr subs) \<Rightarrow>
                       if length subs = 0
                       then Inr (Reject (failure 400
                              ''Subtitles array is required and must not be empty''))
                       else if length subs > MAX_SUBTITLES_PER_REQUEST
                       then Inr (Reject (failure 400
                              (''Too many subtitles in single request. Maximum '' @
                               toString (int MAX_SUBTITLES_PER_REQUEST) @
                               '' subtitles per request.'')))
                       else
                         (case filterValid subs of
                            Inl e \<Rightarrow> Inl e
                          | Inr validSubtitles \<Rightarrow>
                              if length validSubtitles = 0
                              then Inr (Reject (failure 400 ''No valid subtitles to optimize''))
                              else Inr (Accept k validSubtitles))
                   | other \<Rightarrow>
                       Inr (Reject (failure 400
                              ''Subtitles array is required and must not be empty'')))
            | other \<Rightarrow> Inr (Reject (failure 400 ''API key is required''))))"

definition indexOf :: "json \<Rightarrow> int" where
  "indexOf item = (case field item ''index'' of Some (JNum n) \<Rightarrow> n | other \<Rightarrow> 0)"

text \<open>The inner \<^verbatim>\<open>try\<close> block with its \<^verbatim>\<open>catch\<close>.\<close>

definition processBatch :: "environment \<Rightarrow> string \<Rightarrow> json list \<Rightarrow> response" where
  "processBatch env apiKey validSubtitles =
     (case optimizeSubtitles env apiKey validSubtitles of
        Inr optimizedItems \<Rightarrow>
          \<lparr> status = 200, success = True, optimized = Some (sort_key indexOf optimizedItems),
            error = None \<rparr>
      | Inl e \<Rightarrow> failure 500 (messageOr e ''Failed to optimize subtitles''))"

text \<open>The outer \<^verbatim>\<open>catch\<close>.\<close>

definition isApiKeyError :: "string \<Rightarrow> bool" where
  "isApiKeyError errorMessage =
     (includesStr (toLowerCase errorMessage) ''api key'' \<or>
      includesStr (toLowerCase errorMessage) ''authentication'')"

definition outerCatch :: "thrown \<Rightarrow> response" where
  "outerCatch e =
     (let errorMessage = messageOr e ''Unknown error''
      in failure (if isApiKeyError errorMessage then 401 else 500)
           (if isApiKeyError errorMessage
            then ''Invalid API key. Please check your Gemini API key and try again.''
            else ''Failed to optimize subtitles: '' @ errorMessage))"

text \<open>The handler. The request is what \<^verbatim>\<open>request.json()\<close> gives: a thrown error or the body.\<close>

definition POST :: "environment \<Rightarrow> thrown + json \<Rightarrow> response" where
  "POST env request =
     (case request of
        Inl e \<Rightarrow> outerCatch e
      | Inr body \<Rightarrow>
          (case checkRequest body of
             Inl e \<Rightarrow> outerCatch e
           | Inr (Reject r) \<Rightarrow> r
           | Inr (Accept apiKey validSubtitles) \<Rightarrow> processBatch env apiKey validSubtitles))"

text \<open>What the claims read in a provider answer: an array of items with a numeric index and
  a string content.\<close>

definition conforming :: "json \<Rightarrow> bool" where
  "conforming v =
     (case v of
        JArr items \<Rightarrow>
          list_all (\<lambda>item. isNumber (field item ''index'') \<and> isString (field item ''content'')) items
      | other \<Rightarrow> False)"

text \<open>Sample data for the endpoint.\<close>

definition subtitleItem :: "nat \<Rightarrow> json" where
  "subtitleItem i = JObj [(''index'', JNum (int i)), (''content'', JStr ''Hello there'')]"

definition requestBody :: "string \<Rightarrow> nat \<Rightarrow> json" where
  "requestBody key n = JObj [(''apiKey'', JStr key), (''subtitles'', JArr (map subtitleItem [1..<Suc n]))]"

definition answering :: "string \<Rightarrow> json \<Rightarrow> environment" where
  "answering responseText parsed =
     \<lparr> generateContent = (\<lambda>apiKey subtitles. Inr (Some responseText)),
       JSON_parse = (\<lambda>jsonText. Inr parsed) \<rparr>"

definition rejecting :: "string \<Rightarrow> environment" where
  "rejecting message =
     \<lparr> generateContent = (\<lambda>apiKey subtitles. Inl (Error message)),
       JSON_parse = (\<lambda>jsonText. Inl (Error ''Unexpected end of JSON input'')) \<rparr>"

section \<open>The streaming download endpoint\<close>

text \<open>
  The handler creates a readable stream, calls \<^verbatim>\<open>processNextChunk\<close> once, and returns the
  stream; each call formats one window of subtitles, pushes it and arms a timer for the next
  call. The state below is what the closure and the stream hold, with one probe added:
  \<open>formatCalls\<close> counts the invocations of \<^verbatim>\<open>formatSubtitle\<close>. The serializer is a
  parameter; it returns the text or throws.

  The stream is Node's \<^verbatim>\<open>Readable\<close>: a push of data to a destroyed stream, and a push of
  the empty string, are dropped without an error; a push of \<^verbatim>\<open>null\<close> marks the end.
\<close>

record emitter =
  currentIndex :: nat
  pushed :: "string list"
  ended :: bool
  destroyed :: bool
  streamError :: "thrown option"
  timerPending :: bool
  formatCalls :: nat

definition CHUNK_SIZE :: nat where
  "CHUNK_SIZE = 100"

definition created :: emitter where
  "created = \<lparr> currentIndex = 0, pushed = [], ended = False, destroyed = False,
     streamError = None, timerPending = False, formatCalls = 0 \<rparr>"

text \<open>
  \<^verbatim>\<open>chunk.map(formatSubtitle)\<close>: the serializer is called on the subtitles in order until
  one call throws. The result is the number of calls made and the texts or the error.
\<close>

fun formatEach :: "('a \<Rightarrow> thrown + string) \<Rightarrow> 'a list \<Rightarrow> nat \<times> (thrown + string list)" where
  "formatEach formatSubtitle [] = (0, Inr [])"
| "formatEach formatSubtitle (subtitle # chunk) =
     (case formatSubtitle subtitle of
        Inl e \<Rightarrow> (1, Inl e)
      | Inr line \<Rightarrow>
          (case formatEach formatSubtitle chunk of
             (n, Inl e) \<Rightarrow> (Suc n, Inl e)
           | (n, Inr lines) \<Rightarrow> (Suc n, Inr (line # lines))))"

fun join :: "string \<Rightarrow> string list \<Rightarrow> string" where
  "join separator [] = []"
| "join separator [line] = line"
| "join separator (line # lines) = line @ separator @ join separator lines"

definition push :: "string \<Rightarrow> emitter \<Rightarrow> emitter" where
  "push data s = (if destroyed s \<or> data = [] then s else s\<lparr>pushed := pushed s @ [data]\<rparr>)"

definition destroy :: "thrown \<Rightarrow> emitter \<Rightarrow> emitter" where
  "destroy e s = (if destroyed s then s else s\<lparr>destroyed := True, streamError := Some e\<rparr>)"

text \<open>The separator \<^verbatim>\<open>'\\n'\<close> of the source is a backslash followed by the letter n.\<close>

definition processNextChunk :: "('a \<Rightarrow> thrown + string) \<Rightarrow> 'a list \<Rightarrow> emitter \<Rightarrow> emitter" where
  "processNextChunk formatSubtitle subtitles s =
     (if currentIndex s \<ge> length subtitles then s\<lparr>ended := True\<rparr>
      else
        (let chunk = take CHUNK_SIZE (drop (currentIndex s) subtitles)
         in case formatEach formatSubtitle chunk of
              (n, Inr lines) \<Rightarrow>
                (push (join [CHR 0x5C, CHR ''n''] lines) (s\<lparr>formatCalls := formatCalls s + n\<rparr>))
                  \<lparr>currentIndex := currentIndex s + CHUNK_SIZE, timerPending := True\<rparr>
            | (n, Inl e) \<Rightarrow>
                destroy (case e of Error message \<Rightarrow> e | NonError \<Rightarrow> Error ''Processing error'')
                  (s\<lparr>formatCalls := formatCalls s + n\<rparr>)))"

text \<open>
  What can happen after the handler has returned: the armed timer fires and runs
  \<^verbatim>\<open>processNextChunk\<close>, or the consumer closes the destination, which destroys the stream.
\<close>

datatype event = Timer | Close

fun step :: "('a \<Rightarrow> thrown + string) \<Rightarrow> 'a list \<Rightarrow> emitter \<Rightarrow> event \<Rightarrow> emitter" where
  "step formatSubtitle subtitles s Timer =
     (if timerPending s then processNextChunk formatSubtitle subtitles (s\<lparr>timerPending := False\<rparr>)
      else s)"
| "step formatSubtitle subtitles s Close = s\<lparr>destroyed := True\<rparr>"

text \<open>
  The state in which the handler returns the stream. (When the subtitles are not an array
  or the array is empty the handler answers 400 and creates no stream.)
\<close>

definition started :: "('a \<Rightarrow> thrown + string) \<Rightarrow> 'a list \<Rightarrow> emitter" where
  "started formatSubtitle subtitles = processNextChunk formatSubtitle subtitles created"

definition emit :: "('a \<Rightarrow> thrown + string) \<Rightarrow> 'a list \<Rightarrow> event list \<Rightarrow> emitter" where
  "emit formatSubtitle subtitles events =
     foldl (step formatSubtitle subtitles) (started formatSubtitle subtitles) events"

text \<open>Sample data: 500 subtitles, five chunks, and a serializer that never throws.\<close>

definition fiveChunks :: "nat list" where
  "fiveChunks = [0..<500]"

definition plainFormat :: "nat \<Rightarrow> thrown + string" where
  "plainFormat subtitle = Inr (digitsOf subtitle)"

text \<open>
  How far production has come after the start and \<open>j\<close> timer events, for \<open>len\<close> subtitles
  and a serializer that does not throw.
\<close>

definition progress :: "nat \<Rightarrow> nat \<Rightarrow> emitter \<Rightarrow> bool" where
  "progress len j s =
     (formatCalls s = min len (CHUNK_SIZE * Suc j) \<and>
      (if timerPending s then currentIndex s = CHUNK_SIZE * Suc j else len \<le> CHUNK_SIZE * Suc j))"

section \<open>Properties of the subtitle utilities\<close>

subsection \<open>sanitizeContent\<close>

lemma stripTags_no_lt: "CHR ''<'' \<notin> set s \<Longrightarrow> stripTags s = s"
  by (induction s) auto

lemma dropWhile_id_if: "xs = [] \<or> \<not> P (hd xs) \<Longrightarrow> dropWhile P xs = xs"
  by (cases xs) auto

lemma dropWhile_head: "dropWhile P xs = [] \<or> \<not> P (hd (dropWhile P xs))"
  using hd_dropWhile [of P xs] by blast

lemma trim_trim: "trim (trim s) = trim s"
proof -
  define t where "t = dropWhile isWhiteSpace s"
  define u where "u = dropWhile isWhiteSpace (rev t)"
  have ts: "trim s = rev u"
    by (simp add: trim_def t_def u_def)
  have "rev t = takeWhile isWhiteSpace (rev t) @ u"
    by (simp add: u_def)
  then have "rev (rev t) = rev (takeWhile isWhiteSpace (rev t) @ u)"
    by simp
  then have split: "t = rev u @ rev (takeWhile isWhiteSpace (rev t))"
    by simp
  have t_head: "t = [] \<or> \<not> isWhiteSpace (hd t)"
    unfolding t_def by (rule dropWhile_head)
  have "rev u = [] \<or> \<not> isWhiteSpace (hd (rev u))"
  proof (cases "rev u = []")
    case True
    then show ?thesis by simp
  next
    case False
    then have "hd t = hd (rev u)" and "t \<noteq> []"
      using split by (metis hd_append2, metis append_is_Nil_conv)
    then show ?thesis using t_head by simp
  qed
  then have at_front: "dropWhile isWhiteSpace (rev u) = rev u"
    by (rule dropWhile_id_if)
  have "u = [] \<or> \<not> isWhiteSpace (hd u)"
    unfolding u_def by (rule dropWhile_head)
  then have at_back: "dropWhile isWhiteSpace u = u"
    by (rule dropWhile_id_if)
  have "trim (rev u) = rev u"
    by (simp add: trim_def at_front at_back)
  then show ?thesis by (simp add: ts)
qed

lemma set_trim: "set (trim s) \<subseteq> set s"
proof -
  have "set (trim s) \<subseteq> set (dropWhile isWhiteSpace s)"
    unfolding trim_def using set_dropWhileD by fastforce
  also have "\<dots> \<subseteq> set s"
    using set_dropWhileD by fastforce
  finally show ?thesis .
qed

lemma sanitizeContent_no_angle:
  "CHR ''<'' \<notin> set (sanitizeContent s) \<and> CHR ''>'' \<notin> set (sanitizeContent s)"
proof -
  let ?f = "filter (\<lambda>x. x \<noteq> CHR ''>'') (filter (\<lambda>x. x \<noteq> CHR ''<'') (stripTags s))"
  have "set (sanitizeContent s) \<subseteq> set ?f"
    unfolding sanitizeContent_def by (rule set_trim)
  moreover have "CHR ''<'' \<notin> set ?f" and "CHR ''>'' \<notin> set ?f"
    by simp_all
  ultimately show ?thesis by blast
qed

text \<open>
  Claim C1. \<open>sanitizeContent\<close> is a total function of its argument alone (it has no error
  branch and its tag-stripping loop terminates on every string); applying it twice gives
  the same string as applying it once, and its result contains neither \<open><\<close> nor \<open>>\<close>.
\<close>

theorem sanitizeContent_idempotent:
  "sanitizeContent (sanitizeContent s) = sanitizeContent s
   \<and> CHR ''<'' \<notin> set (sanitizeContent s) \<and> CHR ''>'' \<notin> set (sanitizeContent s)"
proof -
  let ?r = "sanitizeContent s"
  have lt: "CHR ''<'' \<notin> set ?r" and gt: "CHR ''>'' \<notin> set ?r"
    using sanitizeContent_no_angle [of s] by simp_all
  have "stripTags ?r = ?r"
    using lt by (rule stripTags_no_lt)
  moreover have "filter (\<lambda>x. x \<noteq> CHR ''<'') ?r = ?r"
    using lt by (auto simp: filter_id_conv)
  moreover have "filter (\<lambda>x. x \<noteq> CHR ''>'') ?r = ?r"
    using gt by (auto simp: filter_id_conv)
  moreover have "trim ?r = ?r"
    unfolding sanitizeContent_def by (rule trim_trim)
  ultimately have "sanitizeContent ?r = ?r"
    by (simp add: sanitizeContent_def [of ?r])
  then show ?thesis using lt gt by simp
qed

subsection \<open>formatTime\<close>

lemma of_char_digitChar: "d < 10 \<Longrightarrow> (of_char (digitChar d) :: nat) = 48 + d"
  by (simp add: digitChar_def)

lemma isDigit_digitChar: "d < 10 \<Longrightarrow> isDigit (digitChar d)"
  by (simp add: isDigit_def of_char_digitChar)

lemma digitsOf_isDigit: "list_all isDigit (digitsOf n)"
proof (induction n rule: digitsOf.induct)
  case (1 n)
  show ?case
  proof (cases "n < 10")
    case True
    then show ?thesis by (simp add: digitsOf.simps [of n] isDigit_digitChar)
  next
    case False
    then show ?thesis using 1 by (simp add: digitsOf.simps [of n] isDigit_digitChar)
  qed
qed

lemma digitsValue_snoc: "digitsValue (s @ [c]) = 10 * digitsValue s + (int (of_char c) - 48)"
  by (simp add: digitsValue_def)

lemma digitsValue_digitsOf: "digitsValue (digitsOf n) = int n"
proof (induction n rule: digitsOf.induct)
  case (1 n)
  show ?case
  proof (cases "n < 10")
    case True
    then show ?thesis
      by (simp add: digitsOf.simps [of n] digitsValue_def of_char_digitChar)
  next
    case False
    then have "digitsValue (digitsOf (n div 10)) = int (n div 10)" using 1 by simp
    moreover have "10 * int (n div 10) + int (n mod 10) = int n"
      by presburger
    ultimately show ?thesis using False
      by (simp add: digitsOf.simps [of n] digitsValue_snoc of_char_digitChar)
  qed
qed

lemma length_digitsOf_lt10: "n < 10 \<Longrightarrow> length (digitsOf n) = 1"
  by (simp add: digitsOf.simps [of n])

lemma length_digitsOf_lt100: "n < 100 \<Longrightarrow> length (digitsOf n) \<le> 2"
  using length_digitsOf_lt10 [of "n div 10"]
  by (cases "n < 10") (simp_all add: digitsOf.simps [of n])

lemma length_digitsOf_lt1000: "n < 1000 \<Longrightarrow> length (digitsOf n) \<le> 3"
  using length_digitsOf_lt100 [of "n div 10"]
  by (cases "n < 10") (simp_all add: digitsOf.simps [of n])

lemma length_padStart: "length (padStart k c s) = max k (length s)"
  by (simp add: padStart_def)

lemma digitsValue_zeros: "digitsValue (replicate k CHR ''0'' @ s) = digitsValue s"
proof -
  have "foldl (\<lambda>acc c. 10 * acc + (int (of_char c) - 48)) 0 (replicate k CHR ''0'') = 0"
    by (induction k) simp_all
  then show ?thesis by (simp add: digitsValue_def)
qed

lemma isDigit_padStart: "list_all isDigit s \<Longrightarrow> list_all isDigit (padStart k CHR ''0'' s)"
  by (auto simp: padStart_def list_all_iff isDigit_def)

lemma padded_field:
  assumes "0 \<le> n"
  shows "list_all isDigit (padStart k CHR ''0'' (toString n))"
    and "digitsValue (padStart k CHR ''0'' (toString n)) = n"
    and "k \<le> length (padStart k CHR ''0'' (toString n))"
proof -
  have ts: "toString n = digitsOf (nat n)"
    using assms by (simp add: toString_def)
  show "list_all isDigit (padStart k CHR ''0'' (toString n))"
    unfolding ts by (rule isDigit_padStart) (rule digitsOf_isDigit)
  show "digitsValue (padStart k CHR ''0'' (toString n)) = n"
    using assms by (simp add: ts padStart_def digitsValue_zeros digitsValue_digitsOf)
  show "k \<le> length (padStart k CHR ''0'' (toString n))"
    by (simp add: length_padStart)
qed

lemma padded_width2:
  assumes "0 \<le> n" and "n < 100"
  shows "length (padStart 2 CHR ''0'' (toString n)) = 2"
proof -
  have "length (digitsOf (nat n)) \<le> 2"
    using assms by (intro length_digitsOf_lt100) simp
  then show ?thesis using assms by (simp add: length_padStart toString_def)
qed

lemma padded_width3:
  assumes "0 \<le> n" and "n < 1000"
  shows "length (padStart 3 CHR ''0'' (toString n)) = 3"
proof -
  have "length (digitsOf (nat n)) \<le> 3"
    using assms by (intro length_digitsOf_lt1000) simp
  then show ?thesis using assms by (simp add: length_padStart toString_def)
qed




lemma jsRem_nonneg: "0 \<le> a \<Longrightarrow> 0 < b \<Longrightarrow> jsRem a b = a mod b"
  by (cases "a = 0") (simp_all add: jsRem_def)

lemma mod_mult_div:
  fixes a b c :: int
  assumes "0 < b" and "0 \<le> c"
  shows "(a mod (b * c)) div b = a div b mod c"
proof -
  have "a mod (b * c) = b * (a div b mod c) + a mod b"
    using assms(2) by (rule zmod_zmult2_eq)
  then have "(a mod (b * c)) div b = (b * (a div b mod c) + a mod b) div b"
    by simp
  also have "\<dots> = a div b mod c + (a mod b) div b"
    using assms(1) by (simp only: div_mult_self4)
  also have "(a mod b) div b = 0"
    using assms(1) by (simp add: div_pos_pos_trivial)
  finally show ?thesis by simp
qed

lemma minutes_eq: "(ms :: int) mod 3600000 div 60000 = ms div 60000 mod 60"
  using mod_mult_div [of 60000 60 ms] by simp

lemma seconds_eq: "(ms :: int) mod 60000 div 1000 = ms div 1000 mod 60"
  using mod_mult_div [of 1000 60 ms] by simp

lemma formatTime_fields:
  assumes "0 \<le> ms" and "ms \<le> MAX_SAFE_INTEGER"
  shows "formatTime (Whole ms) =
     Some (padStart 2 CHR ''0'' (toString (ms div 3600000)) @ '':'' @
           padStart 2 CHR ''0'' (toString (ms div 60000 mod 60)) @ '':'' @
           padStart 2 CHR ''0'' (toString (ms div 1000 mod 60)) @ '','' @
           padStart 3 CHR ''0'' (toString (ms mod 1000)))"
proof -
  have "jsRem ms 3600000 = ms mod 3600000" "jsRem ms 60000 = ms mod 60000"
    "jsRem ms 1000 = ms mod 1000"
    using assms(1) by (simp_all add: jsRem_nonneg)
  moreover have "inModel (Whole ms)"
    using assms by (simp add: inModel_def)
  ultimately have "formatTime (Whole ms) =
     Some (padStart 2 CHR ''0'' (toString (ms div 3600000)) @ '':'' @
           padStart 2 CHR ''0'' (toString (ms mod 3600000 div 60000)) @ '':'' @
           padStart 2 CHR ''0'' (toString (ms mod 60000 div 1000)) @ '','' @
           padStart 3 CHR ''0'' (toString (ms mod 1000)))"
    by (simp add: formatTime_def Let_def floorDiv_def remainder_def pad_def Number_toString_def)
  then show ?thesis
    by (simp only: minutes_eq seconds_eq)
qed

text \<open>
  Claim C8, as amended. \<open>formatTime 0\<close> is \<open>00:00:00,000\<close> and \<open>formatTime 3661001\<close> is
  \<open>01:01:01,001\<close>; for every whole \<open>ms\<close> with \<open>0 \<le> ms \<le> 2^53 - 1\<close> the result has the form
  \<open>HH:MM:SS,mmm\<close> where all four fields are decimal digits, the hours field has at least two
  digits, the minutes and seconds fields have two, the milliseconds field has exactly
  three, and the fields read back as the hours, minutes, seconds and milliseconds of \<open>ms\<close>.
\<close>

theorem formatTime_safe_integers:
  "formatTime (Whole 0) = Some ''00:00:00,000'' \<and>
   formatTime (Whole 3661001) = Some ''01:01:01,001'' \<and>
   (\<forall>ms. 0 \<le> ms \<and> ms \<le> MAX_SAFE_INTEGER \<longrightarrow> (\<exists>hh mm ss fff.
      formatTime (Whole ms) = Some (hh @ '':'' @ mm @ '':'' @ ss @ '','' @ fff) \<and>
      list_all isDigit hh \<and> list_all isDigit mm \<and> list_all isDigit ss \<and> list_all isDigit fff \<and>
      2 \<le> length hh \<and> length mm = 2 \<and> length ss = 2 \<and> length fff = 3 \<and>
      digitsValue hh = ms div 3600000 \<and> digitsValue mm = ms div 60000 mod 60 \<and>
      digitsValue ss = ms div 1000 mod 60 \<and> digitsValue fff = ms mod 1000))"
proof -
  have zero: "formatTime (Whole 0) = Some ''00:00:00,000''"
    by code_simp
  have sample: "formatTime (Whole 3661001) = Some ''01:01:01,001''"
    by code_simp
  have general: "\<exists>hh mm ss fff.
      formatTime (Whole ms) = Some (hh @ '':'' @ mm @ '':'' @ ss @ '','' @ fff) \<and>
      list_all isDigit hh \<and> list_all isDigit mm \<and> list_all isDigit ss \<and> list_all isDigit fff \<and>
      2 \<le> length hh \<and> length mm = 2 \<and> length ss = 2 \<and> length fff = 3 \<and>
      digitsValue hh = ms div 3600000 \<and> digitsValue mm = ms div 60000 mod 60 \<and>
      digitsValue ss = ms div 1000 mod 60 \<and> digitsValue fff = ms mod 1000"
    if nonneg: "0 \<le> ms" and safe: "ms \<le> MAX_SAFE_INTEGER" for ms
  proof -
    let ?h = "ms div 3600000" and ?m = "ms div 60000 mod 60"
    let ?s = "ms div 1000 mod 60" and ?f = "ms mod 1000"
    let ?hh = "padStart 2 CHR ''0'' (toString ?h)" and ?mm = "padStart 2 CHR ''0'' (toString ?m)"
    let ?ss = "padStart 2 CHR ''0'' (toString ?s)" and ?fff = "padStart 3 CHR ''0'' (toString ?f)"
    have h0: "0 \<le> ?h" using nonneg by simp
    have m0: "0 \<le> ?m" and m1: "?m < 100" by simp_all
    have s0: "0 \<le> ?s" and s1: "?s < 100" by simp_all
    have f0: "0 \<le> ?f" and f1: "?f < 1000" by simp_all
    have "formatTime (Whole ms) = Some (?hh @ '':'' @ ?mm @ '':'' @ ?ss @ '','' @ ?fff)"
      using nonneg safe by (rule formatTime_fields)
    moreover have "list_all isDigit ?hh" "digitsValue ?hh = ?h" "2 \<le> length ?hh"
      using h0 by (rule padded_field)+
    moreover have "list_all isDigit ?mm" "digitsValue ?mm = ?m"
      using m0 by (rule padded_field)+
    moreover have "length ?mm = 2"
      using m0 m1 by (rule padded_width2)
    moreover have "list_all isDigit ?ss" "digitsValue ?ss = ?s"
      using s0 by (rule padded_field)+
    moreover have "length ?ss = 2"
      using s0 s1 by (rule padded_width2)
    moreover have "list_all isDigit ?fff" "digitsValue ?fff = ?f"
      using f0 by (rule padded_field)+
    moreover have "length ?fff = 3"
      using f0 f1 by (rule padded_width3)
    ultimately show ?thesis by blast
  qed
  from zero sample general show ?thesis by blast
qed

theorem formatTime_safe_integers_witness:
  "(0::int) \<le> 86399999 \<and> (86399999::int) \<le> MAX_SAFE_INTEGER \<and>
   (\<exists>hh mm ss fff.
      formatTime (Whole 86399999) = Some (hh @ '':'' @ mm @ '':'' @ ss @ '','' @ fff) \<and>
      2 \<le> length hh \<and> length mm = 2 \<and> length ss = 2 \<and> length fff = 3 \<and>
      digitsValue hh = 23 \<and> digitsValue mm = 59 \<and> digitsValue ss = 59 \<and>
      digitsValue fff = 999)"
proof -
  have range: "(0::int) \<le> 86399999 \<and> (86399999::int) \<le> MAX_SAFE_INTEGER"
    by (simp add: MAX_SAFE_INTEGER_def)
  obtain hh mm ss fff where
    "formatTime (Whole 86399999) = Some (hh @ '':'' @ mm @ '':'' @ ss @ '','' @ fff)"
    "2 \<le> length hh" "length mm = 2" "length ss = 2" "length fff = 3"
    "digitsValue hh = 86399999 div 3600000" "digitsValue mm = 86399999 div 60000 mod 60"
    "digitsValue ss = 86399999 div 1000 mod 60" "digitsValue fff = 86399999 mod 1000"
    using formatTime_safe_integers [THEN conjunct2, THEN conjunct2, rule_format, OF range]
    by blast
  then show ?thesis
    using range by (intro conjI exI [of _ hh] exI [of _ mm] exI [of _ ss] exI [of _ fff]) simp_all
qed

text \<open>
  The claim as stated, for every \<open>ms \<ge> 0\<close>, does not hold: \<^verbatim>\<open>Infinity\<close> is a number and
  is not below zero, and its time code is made of the words \<open>Infinity\<close> and \<open>NaN\<close>, not of
  digits.
\<close>

theorem formatTime_Infinity:
  "nonNegative Infinity \<and> formatTime Infinity = Some ''Infinity:NaN:NaN,NaN'' \<and>
   \<not> isDigit CHR ''I''"
  by (simp add: nonNegative_def formatTime_def inModel_def floorDiv_def remainder_def pad_def
      Number_toString_def padStart_def isDigit_def)

section \<open>Properties of parseSubtitleFile\<close>

lemma orNum_zero: "orNum v 0 = (case v of None \<Rightarrow> 0 | Some n \<Rightarrow> n)"
  by (simp add: orNum_def split: option.splits)

lemma orStr_empty: "orStr v [] = (case v of None \<Rightarrow> [] | Some s \<Rightarrow> s)"
  by (simp add: orStr_def split: option.splits)

lemma cleaned_index: "map cap_index (map cleanCaption (enumerate n es)) = map int [Suc n..<Suc n + length es]"
proof (induction es arbitrary: n)
  case Nil
  then show ?case by simp
next
  case (Cons e es)
  have "[Suc n..<Suc n + length (e # es)] = Suc n # [Suc (Suc n)..<Suc (Suc n) + length es]"
    by (simp add: upt_rec)
  then show ?case using Cons [of "Suc n"] by (simp add: cleanCaption_def)
qed

lemma cleaned_nth:
  "i < length es \<Longrightarrow> map cleanCaption (enumerate 0 es) ! i = cleanCaption (i, es ! i)"
  by (simp add: nth_enumerate_eq)

text \<open>
  Claim C2, as amended. When the grammar returns a non-empty sequence of entries, \<open>parseSubtitleFile\<close>
  returns a document. Its captions are the entries that are captions (type \<open>caption\<close> or no
  type), in the order returned; their index values are 1, 2, ..., N whatever index the
  entries carried; start, end and duration are 0 where the entry has none and the entry's
  value otherwise; text is the sanitized text of the entry, and content is the sanitized
  content of the entry, or its sanitized text when the entry has no content or an empty one.
\<close>

theorem parseSubtitleFile_normalizes:
  assumes "subsrt_parse (file_text f) = Entries es" and "es \<noteq> []"
  shows "\<exists>caps. parseSubtitleFile subsrt_parse f = Inr caps \<and>
     length caps = length (filter isCaptionEntry es) \<and>
     map cap_index caps = map int [1..<Suc (length caps)] \<and>
     (\<forall>i < length caps.
        cap_type (caps ! i) = caption \<and>
        cap_start (caps ! i) = (case raw_start (filter isCaptionEntry es ! i) of None \<Rightarrow> 0 | Some v \<Rightarrow> v) \<and>
        cap_end (caps ! i) = (case raw_end (filter isCaptionEntry es ! i) of None \<Rightarrow> 0 | Some v \<Rightarrow> v) \<and>
        cap_duration (caps ! i) =
          (case raw_duration (filter isCaptionEntry es ! i) of None \<Rightarrow> 0 | Some v \<Rightarrow> v) \<and>
        cap_content (caps ! i) =
          sanitizeContent
            (case raw_content (filter isCaptionEntry es ! i) of
               Some s \<Rightarrow> if s \<noteq> [] then s
                         else (case raw_text (filter isCaptionEntry es ! i) of None \<Rightarrow> [] | Some t \<Rightarrow> t)
             | None \<Rightarrow> (case raw_text (filter isCaptionEntry es ! i) of None \<Rightarrow> [] | Some t \<Rightarrow> t)) \<and>
        cap_text (caps ! i) =
          sanitizeContent (case raw_text (filter isCaptionEntry es ! i) of None \<Rightarrow> [] | Some t \<Rightarrow> t))"
proof -
  let ?kept = "filter isCaptionEntry es"
  let ?caps = "map cleanCaption (enumerate 0 ?kept)"
  have res: "parseSubtitleFile subsrt_parse f = Inr ?caps"
    using assms by (simp add: parseSubtitleFile_def)
  have len: "length ?caps = length ?kept"
    by simp
  have idx: "map cap_index ?caps = map int [1..<Suc (length ?caps)]"
    using cleaned_index [of 0 ?kept] by simp
  have fields: "cap_type (?caps ! i) = caption \<and>
        cap_start (?caps ! i) = (case raw_start (?kept ! i) of None \<Rightarrow> 0 | Some v \<Rightarrow> v) \<and>
        cap_end (?caps ! i) = (case raw_end (?kept ! i) of None \<Rightarrow> 0 | Some v \<Rightarrow> v) \<and>
        cap_duration (?caps ! i) = (case raw_duration (?kept ! i) of None \<Rightarrow> 0 | Some v \<Rightarrow> v) \<and>
        cap_content (?caps ! i) =
          sanitizeContent
            (case raw_content (?kept ! i) of
               Some s \<Rightarrow> if s \<noteq> [] then s
                         else (case raw_text (?kept ! i) of None \<Rightarrow> [] | Some t \<Rightarrow> t)
             | None \<Rightarrow> (case raw_text (?kept ! i) of None \<Rightarrow> [] | Some t \<Rightarrow> t)) \<and>
        cap_text (?caps ! i) = sanitizeContent (case raw_text (?kept ! i) of None \<Rightarrow> [] | Some t \<Rightarrow> t)"
    if "i < length ?caps" for i
  proof -
    have "?caps ! i = cleanCaption (i, ?kept ! i)"
      using that by (simp add: nth_enumerate_eq)
    then show ?thesis
      by (simp add: cleanCaption_def orNum_zero orStr_empty) (simp add: orStr_def split: option.splits)
  qed
  show ?thesis
    using res len idx fields by blast
qed

theorem parseSubtitleFile_normalizes_witness:
  "sampleEntries \<noteq> [] \<and>
   (\<exists>caps. parseSubtitleFile (\<lambda>_. Entries sampleEntries) sampleFile = Inr caps \<and>
      map cap_index caps = [1, 2] \<and> map cap_start caps = [1000, 0] \<and>
      map cap_content caps = [''Hello'', ''a''])"
proof -
  have nonempty: "sampleEntries \<noteq> []"
    by (simp add: sampleEntries_def)
  obtain caps where res: "parseSubtitleFile (\<lambda>_. Entries sampleEntries) sampleFile = Inr caps"
    and len: "length caps = length (filter isCaptionEntry sampleEntries)"
    and idx: "map cap_index caps = map int [1..<Suc (length caps)]"
    using parseSubtitleFile_normalizes [of "\<lambda>_. Entries sampleEntries" sampleFile sampleEntries]
      nonempty by blast
  have "length caps = 2"
    unfolding len by (simp add: sampleEntries_def metaEntry_def isCaptionEntry_def truthyStr_def)
  then have "map cap_index caps = [1, 2]"
    using idx by (simp add: upt_rec)
  moreover have "caps = map cleanCaption (enumerate 0 (filter isCaptionEntry sampleEntries))"
    using res nonempty by (simp add: parseSubtitleFile_def)
  then have "map cap_start caps = [1000, 0] \<and> map cap_content caps = [''Hello'', ''a'']"
    by (simp add: sampleEntries_def metaEntry_def isCaptionEntry_def truthyStr_def
        cleanCaption_def orNum_def orStr_def sanitizeContent_def trim_def isWhiteSpace_def)
  ultimately show ?thesis
    using nonempty res by simp
qed

text \<open>
  The claim as stated, with the content field the sanitized content of the entry, does not
  hold: for an entry whose content is the empty string and whose text is \<open>x\<close>, the content
  field is \<open>x\<close>, while the sanitized content of the entry is empty.
\<close>

theorem content_falls_back_to_text:
  "raw_content fallbackEntry = Some [] \<and> sanitizeContent [] = [] \<and>
   parseSubtitleFile (fixedGrammar [fallbackEntry]) sampleFile =
     Inr [\<lparr> cap_type = caption, cap_index = 1, cap_start = 1000, cap_end = 2000,
            cap_duration = 1000, cap_content = ''x'', cap_text = ''x'' \<rparr>]"
  by (simp add: fallbackEntry_def fixedGrammar_def parseSubtitleFile_def isCaptionEntry_def
      truthyStr_def cleanCaption_def orNum_def orStr_def sanitizeContent_def trim_def
      isWhiteSpace_def)

lemma parseSubtitleFile_empty:
  "subsrt_parse (file_text f) = Entries [] \<Longrightarrow>
   parseSubtitleFile subsrt_parse f = Inl ''Failed to parse subtitle file: No valid subtitles found in file''"
  by (simp add: parseSubtitleFile_def parseFailure_def)

text \<open>
  Claim C3. A file from which no usable caption comes should make \<open>parseSubtitleFile\<close> fail
  with the message that no valid subtitles were found. The function tests the grammar's
  result for emptiness before it removes the entries that are not captions, not after: a
  result that holds only \<open>meta\<close> entries passes the test and the function returns the empty
  document.
\<close>

theorem parseSubtitleFile_only_meta:
  "parseSubtitleFile (\<lambda>_. Entries [metaEntry]) sampleFile = Inr []"
  by (simp add: parseSubtitleFile_def metaEntry_def isCaptionEntry_def truthyStr_def)

section \<open>Properties of the admission control\<close>

lemma rateLimit_in_window:
  assumes "m ip = Some \<lparr>count = k, timestamp = t0\<rparr>" and "now - t0 < RATE_LIMIT_WINDOW"
  shows "rateLimit now ip m =
    (if k \<ge> 10 then (False, m) else (True, m(ip \<mapsto> \<lparr>count = k + 1, timestamp = t0\<rparr>)))"
  using assms by (simp add: rateLimit_def MAX_REQUESTS_PER_WINDOW_def)

lemma rateLimit_fresh:
  assumes "m ip = None"
  shows "rateLimit now ip m = (True, m(ip \<mapsto> \<lparr>count = 1, timestamp = now\<rparr>))"
  using assms by (simp add: rateLimit_def)

lemma rateLimit_expired:
  assumes "m ip = Some d" and "RATE_LIMIT_WINDOW \<le> now - timestamp d"
  shows "rateLimit now ip m = (True, m(ip \<mapsto> \<lparr>count = 1, timestamp = now\<rparr>))"
  using assms by (simp add: rateLimit_def)

lemma admitAll_in_window:
  assumes "m ip = Some \<lparr>count = k, timestamp = t0\<rparr>"
    and "\<forall>t \<in> set ts. t - t0 < RATE_LIMIT_WINDOW"
  shows "fst (admitAll ip ts m) = map (\<lambda>i. k + int i < 10) [0..<length ts]
     \<and> (\<exists>k'. snd (admitAll ip ts m) ip = Some \<lparr>count = k', timestamp = t0\<rparr>)"
  using assms
proof (induction ts arbitrary: k m)
  case Nil
  then show ?case by simp
next
  case (Cons t ts)
  have shift: "map (\<lambda>i. k + int i < 10) [0..<length (t # ts)] =
      (k < 10) # map (\<lambda>i. (k + 1) + int i < 10) [0..<length ts]"
    by (simp add: upt_rec [of 0] map_Suc_upt [symmetric] del: upt_Suc)
  have inw: "t - t0 < RATE_LIMIT_WINDOW" and rest: "\<forall>t \<in> set ts. t - t0 < RATE_LIMIT_WINDOW"
    using Cons.prems(2) by simp_all
  show ?case
  proof (cases "k \<ge> 10")
    case True
    then have step: "rateLimit t ip m = (False, m)"
      using rateLimit_in_window [of m ip k t0 t] Cons.prems(1) inw by simp
    have same: "(\<lambda>i. k + int i < 10) = (\<lambda>i. k + 1 + int i < 10)"
      using True by auto
    obtain oks m' where run: "admitAll ip ts m = (oks, m')"
      by (cases "admitAll ip ts m")
    have "fst (admitAll ip ts m) = map (\<lambda>i. k + int i < 10) [0..<length ts]
       \<and> (\<exists>k'. snd (admitAll ip ts m) ip = Some \<lparr>count = k', timestamp = t0\<rparr>)"
      by (rule Cons.IH) (rule Cons.prems(1), rule rest)
    then have "oks = map (\<lambda>i. k + 1 + int i < 10) [0..<length ts]"
      and "\<exists>k'. m' ip = Some \<lparr>count = k', timestamp = t0\<rparr>"
      unfolding run same by simp_all
    then show ?thesis
      unfolding shift using True step run by simp
  next
    case False
    let ?m = "m(ip \<mapsto> \<lparr>count = k + 1, timestamp = t0\<rparr>)"
    have step: "rateLimit t ip m = (True, ?m)"
      using rateLimit_in_window [of m ip k t0 t] Cons.prems(1) inw False by simp
    obtain oks m' where run: "admitAll ip ts ?m = (oks, m')"
      by (cases "admitAll ip ts ?m")
    have "fst (admitAll ip ts ?m) = map (\<lambda>i. k + 1 + int i < 10) [0..<length ts]
       \<and> (\<exists>k'. snd (admitAll ip ts ?m) ip = Some \<lparr>count = k', timestamp = t0\<rparr>)"
      by (rule Cons.IH) (simp, rule rest)
    then have "oks = map (\<lambda>i. k + 1 + int i < 10) [0..<length ts]"
      and "\<exists>k'. m' ip = Some \<lparr>count = k', timestamp = t0\<rparr>"
      unfolding run by simp_all
    then show ?thesis
      unfolding shift using False step run by simp
  qed
qed


lemma admitAll_eleven:
  assumes "m ip = None" and "length ts = 10" and "\<forall>t \<in> set ts. t - t0 < RATE_LIMIT_WINDOW"
  shows "fst (admitAll ip (t0 # ts) m) = replicate 10 True @ [False]
     \<and> (\<exists>k'. snd (admitAll ip (t0 # ts) m) ip = Some \<lparr>count = k', timestamp = t0\<rparr>)"
proof -
  let ?m = "m(ip \<mapsto> \<lparr>count = 1, timestamp = t0\<rparr>)"
  have first: "rateLimit t0 ip m = (True, ?m)"
    using assms(1) by (rule rateLimit_fresh)
  have "fst (admitAll ip ts ?m) = map (\<lambda>i. 1 + int i < 10) [0..<length ts]
     \<and> (\<exists>k'. snd (admitAll ip ts ?m) ip = Some \<lparr>count = k', timestamp = t0\<rparr>)"
    by (rule admitAll_in_window) (simp, rule assms(3))
  moreover have "map (\<lambda>i. 1 + int i < 10) [0..<10] = replicate 9 True @ [False]"
    by (simp add: upt_rec numeral_eq_Suc)
  moreover have "True # replicate 9 True = replicate 10 True"
    by (simp add: numeral_eq_Suc)
  ultimately show ?thesis
    using first assms(2) by (simp add: case_prod_beta)
qed

text \<open>
  Claim C7. For a client without an entry in the table (in particular from the empty table),
  eleven calls of which the last ten fall less than 60 seconds after the first are answered
  by ten admissions followed by one denial; a twelfth call made when 60 seconds or more
  have passed since the first is admitted, and leaves the client's entry at count 1 with
  the window starting at that call.
\<close>

theorem rateLimiter_window_scenario:
  assumes "requestCounts ip = None"
    and "length ts = 10" and "\<forall>t \<in> set ts. t - t0 < RATE_LIMIT_WINDOW"
    and "RATE_LIMIT_WINDOW \<le> t12 - t0"
  shows "\<exists>m m'. admitAll ip (t0 # ts) requestCounts = (replicate 10 True @ [False], m) \<and>
           rateLimit t12 ip m = (True, m') \<and> m' ip = Some \<lparr>count = 1, timestamp = t12\<rparr>"
proof -
  obtain oks m where run: "admitAll ip (t0 # ts) requestCounts = (oks, m)"
    by (cases "admitAll ip (t0 # ts) requestCounts")
  have "fst (admitAll ip (t0 # ts) requestCounts) = replicate 10 True @ [False]
     \<and> (\<exists>k'. snd (admitAll ip (t0 # ts) requestCounts) ip = Some \<lparr>count = k', timestamp = t0\<rparr>)"
    using assms(1-3) by (rule admitAll_eleven)
  then obtain k' where oks: "oks = replicate 10 True @ [False]"
    and entry: "m ip = Some \<lparr>count = k', timestamp = t0\<rparr>"
    unfolding run by auto
  have "rateLimit t12 ip m = (True, m(ip \<mapsto> \<lparr>count = 1, timestamp = t12\<rparr>))"
    using entry assms(4)
    by (intro rateLimit_expired [of m ip "\<lparr>count = k', timestamp = t0\<rparr>" t12]) simp_all
  then show ?thesis
    using run oks by simp
qed

theorem rateLimiter_window_scenario_witness:
  "(Map.empty :: request_counts) ''203.0.113.7'' = None \<and>
   (\<exists>m m'. admitAll ''203.0.113.7'' [0, 1, 2, 3, 4, 5, 6, 7, 8, 9, 59999] Map.empty
              = (replicate 10 True @ [False], m) \<and>
      rateLimit 60000 ''203.0.113.7'' m = (True, m') \<and>
      m' ''203.0.113.7'' = Some \<lparr>count = 1, timestamp = 60000\<rparr>)"
  using rateLimiter_window_scenario
    [of Map.empty "''203.0.113.7''" "[1, 2, 3, 4, 5, 6, 7, 8, 9, 59999]" 0 60000]
  by (simp add: RATE_LIMIT_WINDOW_def)


lemma clientIP_missing: "x_forwarded_for r = None \<Longrightarrow> clientIP r = ''unknown''"
  by (simp add: clientIP_def orStr_def)

lemma admission_anonymous:
  assumes "x_forwarded_for r = None" and "isMultipart r"
  shows "admission r now m = (verdict (fst (rateLimit now ''unknown'' m)), snd (rateLimit now ''unknown'' m))"
  using assms by (simp add: admission_def clientIP_missing verdict_def split: prod.splits bool.splits)

lemma serveAll_anonymous:
  assumes "\<forall>(r, t) \<in> set reqs. x_forwarded_for r = None \<and> isMultipart r"
  shows "serveAll reqs m =
     (map verdict (fst (admitAll ''unknown'' (map snd reqs) m)),
      snd (admitAll ''unknown'' (map snd reqs) m))"
  using assms
proof (induction reqs arbitrary: m)
  case Nil
  then show ?case by simp
next
  case (Cons p reqs)
  obtain r t where p: "p = (r, t)" by (cases p)
  have here: "x_forwarded_for r = None" "isMultipart r"
    and rest: "\<forall>(r, t) \<in> set reqs. x_forwarded_for r = None \<and> isMultipart r"
    using Cons.prems p by simp_all
  show ?case
    by (simp add: p admission_anonymous [OF here] Cons.IH [OF rest] case_prod_beta)
qed

text \<open>
  Claim C10. A request without the \<open>x-forwarded-for\<close> header is counted under the key
  \<open>unknown\<close>. Eleven such requests inside one window, from whatever peers, therefore use one
  counter: the first ten go on and the eleventh is answered 429, also when it is the first
  request of its peer.
\<close>

theorem missing_header_shares_counter:
  assumes "\<forall>(r, t) \<in> set reqs. x_forwarded_for r = None \<and> isMultipart r"
    and "length reqs = 11"
    and "\<forall>(r, t) \<in> set reqs. t - snd (hd reqs) < RATE_LIMIT_WINDOW"
    and "requestCounts ''unknown'' = None"
  shows "(\<forall>(r, t) \<in> set reqs. clientIP r = ''unknown'') \<and>
     fst (serveAll reqs requestCounts) =
       replicate 10 Proceed @ [Respond 429 ''Too many requests. Please try again later.'']"
proof -
  obtain p rest where reqs: "reqs = p # rest" and len: "length rest = 10"
    using assms(2) by (cases reqs) simp_all
  have keys: "\<forall>(r, t) \<in> set reqs. clientIP r = ''unknown''"
    using assms(1) clientIP_missing by fastforce
  have "\<forall>t \<in> set (map snd rest). t - snd p < RATE_LIMIT_WINDOW"
    using assms(3) reqs by auto
  then have "fst (admitAll ''unknown'' (snd p # map snd rest) requestCounts) = replicate 10 True @ [False]"
    using admitAll_eleven [of requestCounts "''unknown''" "map snd rest" "snd p"] assms(4) len
    by simp
  then have "fst (serveAll reqs requestCounts) = map verdict (replicate 10 True @ [False])"
    using serveAll_anonymous [OF assms(1), of requestCounts] reqs by simp
  then show ?thesis
    using keys by (simp add: verdict_def)
qed

theorem missing_header_shares_counter_witness:
  "length anonymousRequests = 11 \<and> distinct (map (origin \<circ> fst) anonymousRequests) \<and>
   fst (serveAll anonymousRequests Map.empty) =
     replicate 10 Proceed @ [Respond 429 ''Too many requests. Please try again later.'']"
proof -
  have list: "anonymousRequests = map anonymousRequest [0, 1, 2, 3, 4, 5, 6, 7, 8, 9, 10]"
    by (simp add: anonymousRequests_def upt_rec numeral_eq_Suc)
  have "\<forall>(r, t) \<in> set anonymousRequests. x_forwarded_for r = None \<and> isMultipart r"
    by (simp add: list anonymousRequest_def isMultipart_def)
  moreover have "length anonymousRequests = 11"
    by (simp add: list)
  moreover have "\<forall>(r, t) \<in> set anonymousRequests. t - snd (hd anonymousRequests) < RATE_LIMIT_WINDOW"
    by (simp add: list anonymousRequest_def RATE_LIMIT_WINDOW_def)
  moreover have "(Map.empty :: request_counts) ''unknown'' = None"
    by simp
  moreover have "distinct (map (origin \<circ> fst) anonymousRequests)"
    by (simp add: list anonymousRequest_def digitsOf.simps digitChar_def)
  ultimately show ?thesis
    using missing_header_shares_counter [of anonymousRequests Map.empty] by blast
qed

section \<open>Properties of the optimize endpoint\<close>

lemma checkItems_malformed:
  assumes "\<not> list_all (\<lambda>item. isNumber (field item ''index'') \<and> isString (field item ''content'')) items"
  shows "\<exists>message. checkItems items = Some (Error message)"
  using assms
proof (induction items)
  case Nil
  then show ?case by simp
next
  case (Cons item items)
  then show ?case by (cases "item = JNull") auto
qed

lemma optimizeAttempt_malformed:
  assumes "generateContent env apiKey subtitles = Inr responseText"
    and "JSON_parse env (jsonTextOf responseText) = Inr v"
    and "\<not> conforming v"
  shows "\<exists>message. optimizeAttempt env apiKey subtitles = Inl (Error message)"
proof (cases v)
  case (JArr items)
  then have "\<exists>message. checkItems items = Some (Error message)"
    using assms(3) by (intro checkItems_malformed) (simp add: conforming_def)
  then show ?thesis
    using assms(1,2) JArr by (auto simp: optimizeAttempt_def)
qed (use assms in \<open>simp_all add: optimizeAttempt_def\<close>)

text \<open>
  Claim C4. When the request has passed validation, the provider has answered and the
  parsed answer is not an array, or holds an element without a numeric index or without a
  string content, the handler answers with status 500, \<open>success\<close> false, an error message
  that starts with \<open>Failed to optimize subtitles\<close>, and no \<open>optimized\<close> array at all.
\<close>

theorem malformed_response_fails:
  assumes "checkRequest body = Inr (Accept apiKey validSubtitles)"
    and "generateContent env apiKey validSubtitles = Inr responseText"
    and "JSON_parse env (jsonTextOf responseText) = Inr v"
    and "\<not> conforming v"
  shows "\<exists>message. POST env (Inr body) =
     \<lparr> status = 500, success = False, optimized = None,
       error = Some (''Failed to optimize subtitles: '' @ message) \<rparr>"
proof -
  obtain message where "optimizeAttempt env apiKey validSubtitles = Inl (Error message)"
    using optimizeAttempt_malformed [OF assms(2-4)] by blast
  then have "optimizeSubtitles env apiKey validSubtitles =
      Inl (Error (''Failed to optimize subtitles: '' @ message))"
    by (simp add: optimizeSubtitles_def messageOr_def)
  then have "processBatch env apiKey validSubtitles =
      failure 500 (''Failed to optimize subtitles: '' @ message)"
    by (simp add: processBatch_def messageOr_def)
  then have "POST env (Inr body) = failure 500 (''Failed to optimize subtitles: '' @ message)"
    using assms(1) by (simp add: POST_def)
  then show ?thesis
    unfolding failure_def by blast
qed

lemma requestBody_accepted: "checkRequest (requestBody ''key'' 2) = Inr (Accept ''key'' [subtitleItem 1, subtitleItem 2])"
  by (simp add: checkRequest_def requestBody_def subtitleItem_def MAX_SUBTITLES_PER_REQUEST_def
      hasContent_def trim_def isWhiteSpace_def upt_rec)

theorem malformed_response_fails_witness:
  "\<not> conforming (JArr [JObj [(''index'', JStr ''1''), (''content'', JStr ''Hi'')]]) \<and>
   POST (answering ''[{}]'' (JArr [JObj [(''index'', JStr ''1''), (''content'', JStr ''Hi'')]]))
     (Inr (requestBody ''key'' 2)) =
     \<lparr> status = 500, success = False, optimized = None,
       error = Some ''Failed to optimize subtitles: Invalid item format in response'' \<rparr>"
proof -
  let ?v = "JArr [JObj [(''index'', JStr ''1''), (''content'', JStr ''Hi'')]]"
  let ?env = "answering ''[{}]'' ?v"
  have bad: "\<not> conforming ?v"
    by (simp add: conforming_def)
  have "\<exists>message. POST ?env (Inr (requestBody ''key'' 2)) =
     \<lparr> status = 500, success = False, optimized = None,
       error = Some (''Failed to optimize subtitles: '' @ message) \<rparr>"
    using bad
    by (intro malformed_response_fails [OF requestBody_accepted, of ?env "Some ''[{}]''" ?v])
      (simp_all add: answering_def)
  moreover have "POST ?env (Inr (requestBody ''key'' 2)) =
      failure 500 ''Failed to optimize subtitles: Invalid item format in response''"
    by (simp add: POST_def requestBody_accepted processBatch_def optimizeSubtitles_def
        optimizeAttempt_def answering_def messageOr_def)
  ultimately show ?thesis
    using bad by (simp add: failure_def)
qed

text \<open>
  Claim C5, as amended. A request with a non-empty string API key whose subtitles array has
  more than 50 items is answered, whatever the provider would do, with status 400,
  \<open>success\<close> false and a message containing \<open>Maximum 50\<close>.
\<close>

theorem oversized_request_rejected:
  assumes "field body ''apiKey'' = Some (JStr k)" and "k \<noteq> []"
    and "field body ''subtitles'' = Some (JArr subs)" and "length subs > 50"
  shows "POST env (Inr body) =
     \<lparr> status = 400, success = False, optimized = None,
       error = Some ''Too many subtitles in single request. Maximum 50 subtitles per request.'' \<rparr>
     \<and> includesStr ''Too many subtitles in single request. Maximum 50 subtitles per request.''
          ''Maximum 50''"
proof -
  have "body \<noteq> JNull"
    using assms(1) by auto
  moreover have "toString (int MAX_SUBTITLES_PER_REQUEST) = ''50''"
    by code_simp
  moreover have "subs \<noteq> []"
    using assms(4) by auto
  ultimately have "checkRequest body = Inr (Reject (failure 400
      ''Too many subtitles in single request. Maximum 50 subtitles per request.''))"
    using assms by (simp add: checkRequest_def MAX_SUBTITLES_PER_REQUEST_def)
  then have "POST env (Inr body) = failure 400
      ''Too many subtitles in single request. Maximum 50 subtitles per request.''"
    by (simp add: POST_def)
  moreover have "includesStr ''Too many subtitles in single request. Maximum 50 subtitles per request.''
          ''Maximum 50''"
    by simp
  ultimately show ?thesis
    by (simp add: failure_def)
qed

theorem oversized_request_rejected_witness:
  "field (requestBody ''key'' 60) ''apiKey'' = Some (JStr ''key'') \<and>
   success (POST (rejecting ''unreachable'') (Inr (requestBody ''key'' 60))) = False \<and>
   error (POST (rejecting ''unreachable'') (Inr (requestBody ''key'' 60))) =
     Some ''Too many subtitles in single request. Maximum 50 subtitles per request.''"
proof -
  have "field (requestBody ''key'' 60) ''apiKey'' = Some (JStr ''key'')"
    and "field (requestBody ''key'' 60) ''subtitles'' = Some (JArr (map subtitleItem [1..<Suc 60]))"
    by (simp_all add: requestBody_def)
  moreover have "''key'' \<noteq> []" and "length (map subtitleItem [1..<Suc 60]) > 50"
    by simp_all
  ultimately show ?thesis
    using oversized_request_rejected
      [of "requestBody ''key'' 60" "''key''" "map subtitleItem [1..<Suc 60]" "rejecting ''unreachable''"]
    by simp
qed

text \<open>
  The claim as stated, for every request with more than 50 items, does not hold: the API
  key is checked first, and a request of 60 items with an empty key is answered
  \<open>API key is required\<close>.
\<close>

theorem missing_key_precedes_size_check:
  "field (requestBody [] 60) ''subtitles'' = Some (JArr (map subtitleItem [1..<Suc 60])) \<and>
   length (map subtitleItem [1..<Suc 60]) = 60 \<and>
   POST (rejecting ''unreachable'') (Inr (requestBody [] 60)) =
     \<lparr> status = 400, success = False, optimized = None, error = Some ''API key is required'' \<rparr> \<and>
   \<not> includesStr ''API key is required'' ''Maximum 50''"
  by (simp add: requestBody_def POST_def checkRequest_def failure_def)

text \<open>
  Claim C6. A failure with authentication wording should be answered with status 401 and
  the invalid-key message, also when it comes from the provider call. The wording is only
  inspected in the outer \<^verbatim>\<open>catch\<close>; an error of the provider call is caught by the inner
  one, which answers 500 with the error's own message.
\<close>

theorem provider_auth_failure_is_500:
  "POST (rejecting ''API key not valid. Please pass a valid API key.'') (Inr (requestBody ''key'' 2)) =
     \<lparr> status = 500, success = False, optimized = None,
       error = Some ''Failed to optimize subtitles: API key not valid. Please pass a valid API key.'' \<rparr>
   \<and> isApiKeyError ''Failed to optimize subtitles: API key not valid. Please pass a valid API key.''"
proof -
  have "POST (rejecting ''API key not valid. Please pass a valid API key.'') (Inr (requestBody ''key'' 2)) =
     failure 500 ''Failed to optimize subtitles: API key not valid. Please pass a valid API key.''"
    by (simp add: POST_def requestBody_accepted processBatch_def optimizeSubtitles_def
        optimizeAttempt_def rejecting_def messageOr_def)
  moreover have "isApiKeyError ''Failed to optimize subtitles: API key not valid. Please pass a valid API key.''"
    by code_simp
  ultimately show ?thesis
    by (simp add: failure_def)
qed

lemma processBatch_status: "status (processBatch env apiKey validSubtitles) \<in> {200, 500}"
  by (simp add: processBatch_def failure_def split: sum.splits)

lemma outerCatch_auth:
  "isApiKeyError message \<Longrightarrow>
   outerCatch (Error message) = failure 401 ''Invalid API key. Please check your Gemini API key and try again.''"
  by (simp add: outerCatch_def messageOr_def)

section \<open>Properties of the streaming emitter\<close>

lemma formatEach_total:
  assumes "\<forall>x \<in> set chunk. \<exists>line. formatSubtitle x = Inr line"
  shows "\<exists>lines. formatEach formatSubtitle chunk = (length chunk, Inr lines)"
  using assms
proof (induction chunk)
  case Nil
  then show ?case by simp
next
  case (Cons x chunk)
  then obtain line lines where "formatSubtitle x = Inr line"
    and "formatEach formatSubtitle chunk = (length chunk, Inr lines)"
    by auto
  then show ?case by simp
qed

lemma formatCalls_push: "formatCalls (push data s) = formatCalls s"
  and currentIndex_push: "currentIndex (push data s) = currentIndex s"
  and timerPending_push: "timerPending (push data s) = timerPending s"
  by (simp_all add: push_def)

lemma processNextChunk_total:
  assumes "\<forall>x \<in> set subtitles. \<exists>line. formatSubtitle x = Inr line"
    and "currentIndex s < length subtitles"
  shows "formatCalls (processNextChunk formatSubtitle subtitles s) =
           formatCalls s + min CHUNK_SIZE (length subtitles - currentIndex s)"
    and "currentIndex (processNextChunk formatSubtitle subtitles s) = currentIndex s + CHUNK_SIZE"
    and "timerPending (processNextChunk formatSubtitle subtitles s)"
proof -
  let ?chunk = "take CHUNK_SIZE (drop (currentIndex s) subtitles)"
  have "\<forall>x \<in> set ?chunk. \<exists>line. formatSubtitle x = Inr line"
    using assms(1) by (meson in_set_dropD in_set_takeD)
  then obtain lines where "formatEach formatSubtitle ?chunk = (length ?chunk, Inr lines)"
    using formatEach_total by blast
  then have run: "processNextChunk formatSubtitle subtitles s =
      (push (join [CHR 0x5C, CHR ''n''] lines) (s\<lparr>formatCalls := formatCalls s + length ?chunk\<rparr>))
        \<lparr>currentIndex := currentIndex s + CHUNK_SIZE, timerPending := True\<rparr>"
    using assms(2) by (simp add: processNextChunk_def)
  show "formatCalls (processNextChunk formatSubtitle subtitles s) =
           formatCalls s + min CHUNK_SIZE (length subtitles - currentIndex s)"
    unfolding run by (simp add: formatCalls_push min.commute)
  show "currentIndex (processNextChunk formatSubtitle subtitles s) = currentIndex s + CHUNK_SIZE"
    unfolding run by simp
  show "timerPending (processNextChunk formatSubtitle subtitles s)"
    unfolding run by simp
qed

lemma processNextChunk_done:
  assumes "length subtitles \<le> currentIndex s"
  shows "formatCalls (processNextChunk formatSubtitle subtitles s) = formatCalls s"
    and "timerPending (processNextChunk formatSubtitle subtitles s) = timerPending s"
  using assms by (simp_all add: processNextChunk_def)

lemma progress_started:
  assumes "\<forall>x \<in> set subtitles. \<exists>line. formatSubtitle x = Inr line"
  shows "progress (length subtitles) 0 (started formatSubtitle subtitles)"
proof (cases "subtitles = []")
  case True
  then show ?thesis
    by (simp add: progress_def started_def processNextChunk_def created_def)
next
  case False
  then have "currentIndex created < length subtitles"
    by (simp add: created_def)
  from processNextChunk_total [OF assms this] show ?thesis
    by (simp add: progress_def started_def created_def)
qed

lemma progress_Close: "progress len j s \<Longrightarrow> progress len j (s\<lparr>destroyed := True\<rparr>)"
  by (auto simp: progress_def)

lemma progress_Timer:
  assumes "\<forall>x \<in> set subtitles. \<exists>line. formatSubtitle x = Inr line"
    and "progress (length subtitles) j s"
  shows "progress (length subtitles) (Suc j) (step formatSubtitle subtitles s Timer)"
proof (cases "timerPending s")
  case False
  then show ?thesis
    using assms(2) by (simp add: progress_def)
next
  case True
  let ?s = "s\<lparr>timerPending := False\<rparr>"
  have at: "currentIndex ?s = CHUNK_SIZE * Suc j" and calls: "formatCalls ?s = min (length subtitles) (CHUNK_SIZE * Suc j)"
    using assms(2) True by (simp_all add: progress_def)
  show ?thesis
  proof (cases "currentIndex ?s < length subtitles")
    case True
    from processNextChunk_total [OF assms(1) this] at calls True \<open>timerPending s\<close>
    show ?thesis
      by (auto simp: progress_def min_def)
  next
    case False
    then have "length subtitles \<le> currentIndex ?s" by simp
    from processNextChunk_done [OF this, of formatSubtitle] at calls False \<open>timerPending s\<close>
    show ?thesis
      by (auto simp: progress_def min_def)
  qed
qed

lemma progress_run:
  assumes "\<forall>x \<in> set subtitles. \<exists>line. formatSubtitle x = Inr line"
    and "progress (length subtitles) j s"
  shows "progress (length subtitles) (j + length (filter (\<lambda>e. e = Timer) events))
           (foldl (step formatSubtitle subtitles) s events)"
  using assms(2)
proof (induction events arbitrary: j s)
  case Nil
  then show ?case by simp
next
  case (Cons e events)
  show ?case
  proof (cases e)
    case Timer
    have "progress (length subtitles) (Suc j) (step formatSubtitle subtitles s Timer)"
      using assms(1) Cons.prems by (rule progress_Timer)
    from Cons.IH [OF this] show ?thesis
      using Timer by simp
  next
    case Close
    have "progress (length subtitles) j (step formatSubtitle subtitles s Close)"
      using Cons.prems by (simp add: progress_Close)
    from Cons.IH [OF this] show ?thesis
      using Close by simp
  qed
qed

lemma formatCalls_emit:
  assumes "\<forall>x \<in> set subtitles. \<exists>line. formatSubtitle x = Inr line"
  shows "formatCalls (emit formatSubtitle subtitles events) =
     min (length subtitles) (CHUNK_SIZE * Suc (length (filter (\<lambda>e. e = Timer) events)))"
  using progress_run [OF assms progress_started [OF assms], of events]
  by (simp add: emit_def progress_def)

lemma pushed_after_close:
  "destroyed s \<Longrightarrow> pushed (step formatSubtitle subtitles s e) = pushed s \<and> destroyed (step formatSubtitle subtitles s e)"
  by (cases e) (auto simp: processNextChunk_def push_def destroy_def split: prod.splits sum.splits)

text \<open>
  Claim C9, as amended. Closing the destination does not stop production: for a serializer
  that does not throw, after the start and any sequence of timer events and closes, the
  serializer has been invoked \<open>min N (100 * (j + 1))\<close> times, where \<open>N\<close> is the number of
  subtitles and \<open>j\<close> the number of timer events, however many closes lie in between.
\<close>

theorem production_ignores_close:
  assumes "\<forall>x \<in> set subtitles. \<exists>line. formatSubtitle x = Inr line"
  shows "formatCalls (emit formatSubtitle subtitles events) =
     min (length subtitles) (CHUNK_SIZE * Suc (length (filter (\<lambda>e. e = Timer) events)))"
  using assms by (rule formatCalls_emit)

lemma plainFormat_total: "\<forall>x \<in> set subtitles. \<exists>line. plainFormat x = Inr line"
  by (simp add: plainFormat_def)

theorem production_ignores_close_witness:
  "length fiveChunks = 500 \<and>
   formatCalls (emit plainFormat fiveChunks [Timer, Close, Timer, Close, Timer]) = 400"
proof -
  have "\<forall>x \<in> set fiveChunks. \<exists>line. plainFormat x = Inr line"
    by (rule plainFormat_total)
  then have "formatCalls (emit plainFormat fiveChunks [Timer, Close, Timer, Close, Timer]) =
      min (length fiveChunks)
        (CHUNK_SIZE * Suc (length (filter (\<lambda>e. e = Timer) [Timer, Close, Timer, Close, Timer])))"
    by (rule production_ignores_close)
  then show ?thesis
    by (simp add: fiveChunks_def CHUNK_SIZE_def)
qed

text \<open>
  The claim as stated does not hold: with five chunks and the destination closed after
  chunk 2, the next timer event serializes chunk 3, and the following ones chunks 4 and 5.
\<close>

theorem close_after_chunk_two_keeps_producing:
  "length fiveChunks = 5 * CHUNK_SIZE \<and>
   formatCalls (emit plainFormat fiveChunks [Timer]) = 200 \<and>
   formatCalls (emit plainFormat fiveChunks [Timer, Close]) = 200 \<and>
   formatCalls (emit plainFormat fiveChunks [Timer, Close, Timer]) = 300 \<and>
   formatCalls (emit plainFormat fiveChunks [Timer, Close, Timer, Timer, Timer]) = 500"
  by (simp add: formatCalls_emit [OF plainFormat_total] fiveChunks_def CHUNK_SIZE_def)

end
